theory Spec2Isabelle
  imports Complex_Main "HOL-Library.AList"
begin

section \<open>Python values\<close>

text \<open>
  The values that occur in a concept's \<open>db_refs\<close>: \<open>None\<close>, strings, numbers, lists
  and tuples. A number is a finite float, a score, represented by its exact rational
  value, which is what Python's \<open>==\<close> and \<open><\<close> compare (NaN, the infinities and
  negative zero are not represented). Strings are sequences of code points below 256.
  Ints, booleans and dicts as values inside \<open>db_refs\<close> are left out: an int compares
  like the float of the same value but is printed differently, and one constructor
  cannot hold both.
\<close>

datatype pyval =
    PNone
  | PStr string
  | PNum rat
  | PList "pyval list"
  | PTuple "pyval list"

datatype pyerr = IndexError | TypeError

text \<open>Truth value testing (\<open>if not x\<close>).\<close>

fun truthy :: "pyval \<Rightarrow> bool" where
  "truthy PNone = False"
| "truthy (PStr s) = (s \<noteq> [])"
| "truthy (PNum x) = (x \<noteq> 0)"
| "truthy (PList xs) = (xs \<noteq> [])"
| "truthy (PTuple xs) = (xs \<noteq> [])"

text \<open>\<open>isinstance(x, (list, tuple))\<close> and \<open>isinstance(x, list)\<close>.\<close>

fun is_list_or_tuple :: "pyval \<Rightarrow> bool" where
  "is_list_or_tuple (PList xs) = True"
| "is_list_or_tuple (PTuple xs) = True"
| "is_list_or_tuple _ = False"

fun is_list :: "pyval \<Rightarrow> bool" where
  "is_list (PList xs) = True"
| "is_list _ = False"

text \<open>The elements a list or tuple yields when iterated.\<close>

fun seq_items :: "pyval \<Rightarrow> pyval list" where
  "seq_items (PList xs) = xs"
| "seq_items (PTuple xs) = xs"
| "seq_items _ = []"

text \<open>
  Subscription \<open>x[i]\<close> with a non-negative index: out of range raises \<open>IndexError\<close>,
  a string yields the one-character string, \<open>None\<close> and numbers are not subscriptable.
\<close>

fun py_getitem :: "pyval \<Rightarrow> nat \<Rightarrow> pyerr + pyval" where
  "py_getitem (PList xs) i = (if i < length xs then Inr (xs ! i) else Inl IndexError)"
| "py_getitem (PTuple xs) i = (if i < length xs then Inr (xs ! i) else Inl IndexError)"
| "py_getitem (PStr s) i = (if i < length s then Inr (PStr [s ! i]) else Inl IndexError)"
| "py_getitem PNone i = Inl TypeError"
| "py_getitem (PNum x) i = Inl TypeError"

text \<open>
  The order \<open><\<close>: numbers by value, strings by code points, lists with lists and
  tuples with tuples lexicographically (the first pair of unequal elements decides);
  every other combination raises \<open>TypeError\<close>.
\<close>

fun str_lt :: "string \<Rightarrow> string \<Rightarrow> bool" where
  "str_lt [] [] = False"
| "str_lt [] (y # ys) = True"
| "str_lt (x # xs) [] = False"
| "str_lt (x # xs) (y # ys) =
     (if (of_char x :: nat) < of_char y then True
      else if (of_char y :: nat) < of_char x then False
      else str_lt xs ys)"

fun py_lt :: "pyval \<Rightarrow> pyval \<Rightarrow> pyerr + bool"
  and py_lt_seq :: "pyval list \<Rightarrow> pyval list \<Rightarrow> pyerr + bool" where
  "py_lt (PNum x) (PNum y) = Inr (x < y)"
| "py_lt (PStr s) (PStr t) = Inr (str_lt s t)"
| "py_lt (PList xs) (PList ys) = py_lt_seq xs ys"
| "py_lt (PTuple xs) (PTuple ys) = py_lt_seq xs ys"
| "py_lt _ _ = Inl TypeError"
| "py_lt_seq [] [] = Inr False"
| "py_lt_seq [] (y # ys) = Inr True"
| "py_lt_seq (x # xs) [] = Inr False"
| "py_lt_seq (x # xs) (y # ys) = (if x = y then py_lt_seq xs ys else py_lt x y)"

section \<open>\<open>sorted(xs, key=lambda x: x[1], reverse=True)\<close>\<close>

text \<open>
  Python computes the key \<open>x[1]\<close> of every element first, in order, and then sorts
  stably: with \<open>reverse=True\<close> the result is descending in the key and elements with
  equal keys keep their original order. The sort is written as an insertion sort that
  uses \<open><\<close> on keys only, as Python does. An element is inserted in front of the
  elements that come after it in the input, and moves right only past strictly
  greater keys. Python's own sort makes other comparisons in another order; the
  results below are about inputs whose keys cannot be computed, where no comparison
  is made, and about keys that are all numbers, where every comparison succeeds.
\<close>

fun key_each :: "pyval list \<Rightarrow> pyerr + (pyval \<times> pyval) list" where
  "key_each [] = Inr []"
| "key_each (x # xs) =
     (case py_getitem x 1 of
        Inl e \<Rightarrow> Inl e
      | Inr k \<Rightarrow> (case key_each xs of Inl e \<Rightarrow> Inl e | Inr ks \<Rightarrow> Inr ((k, x) # ks)))"

fun insert_desc :: "pyval \<times> pyval \<Rightarrow> (pyval \<times> pyval) list \<Rightarrow> pyerr + (pyval \<times> pyval) list" where
  "insert_desc p [] = Inr [p]"
| "insert_desc p (q # qs) =
     (case py_lt (fst p) (fst q) of
        Inl e \<Rightarrow> Inl e
      | Inr b \<Rightarrow>
          if b then (case insert_desc p qs of Inl e \<Rightarrow> Inl e | Inr r \<Rightarrow> Inr (q # r))
          else Inr (p # q # qs))"

fun sort_desc :: "(pyval \<times> pyval) list \<Rightarrow> pyerr + (pyval \<times> pyval) list" where
  "sort_desc [] = Inr []"
| "sort_desc (p # ps) = (case sort_desc ps of Inl e \<Rightarrow> Inl e | Inr r \<Rightarrow> insert_desc p r)"

definition sorted_by_score :: "pyval list \<Rightarrow> pyerr + pyval list" where
  "sorted_by_score xs =
     (case key_each xs of
        Inl e \<Rightarrow> Inl e
      | Inr ks \<Rightarrow> (case sort_desc ks of Inl e \<Rightarrow> Inl e | Inr r \<Rightarrow> Inr (map snd r)))"

section \<open>Concepts and grounding resolution\<close>

text \<open>
  A dict keeps its items in insertion order: an association list. \<open>d.get(k)\<close> is
  \<open>dict_get\<close>, with \<open>None\<close> for a missing key.
\<close>

type_synonym dict = "(string \<times> pyval) list"

definition dict_get :: "dict \<Rightarrow> string \<Rightarrow> pyval" where
  "dict_get d k = (case map_of d k of None \<Rightarrow> PNone | Some v \<Rightarrow> v)"

text \<open>
  A \<open>Concept\<close> object: its class (what \<open>type(self)\<close> returns), its name and its
  \<open>db_refs\<close>. The field \<open>db_refs\<close> is a dict by value (\<open>dict concept\<close>) where the
  code only reads it, and a reference into a store where the code shares and mutates it.
\<close>

record 'r concept =
  cls :: string
  name :: string
  db_refs :: 'r

definition default_ns_order :: "string list" where
  "default_ns_order = [''WM'', ''UN'', ''HUME'', ''SOFIA'', ''CWMS'']"

text \<open>\<open>ns_order if ns_order else default_ns_order\<close>: \<open>None\<close> and the empty list are falsy.\<close>

definition effective_ns_order :: "string list option \<Rightarrow> string list" where
  "effective_ns_order ns_order =
     (case ns_order of None \<Rightarrow> default_ns_order
      | Some ns \<Rightarrow> if ns = [] then default_ns_order else ns)"

text \<open>\<open>sorted(db_id, key=lambda x: x[1], reverse=True)[0][0]\<close>\<close>

definition top_scored :: "pyval list \<Rightarrow> pyerr + pyval" where
  "top_scored xs =
     (case sorted_by_score xs of
        Inl e \<Rightarrow> Inl e
      | Inr [] \<Rightarrow> Inl IndexError
      | Inr (t # ts) \<Rightarrow> py_getitem t 0)"

text \<open>
  Lines 53 to 57 of \<open>get_grounding\<close>: what becomes of a truthy \<open>db_id\<close> before it is
  returned.
\<close>

definition extract_id :: "pyval \<Rightarrow> pyerr + pyval" where
  "extract_id db_id =
     (if is_list_or_tuple db_id then
        (case py_getitem db_id 0 of
           Inl e \<Rightarrow> Inl e
         | Inr first \<Rightarrow>
             if is_list_or_tuple first then top_scored (seq_items first) else Inr first)
      else Inr db_id)"

text \<open>The loop over \<open>ns_order\<close>; falling off its end returns \<open>(None, None)\<close>.\<close>

fun scan_ns_order :: "dict \<Rightarrow> string list \<Rightarrow> pyerr + (pyval \<times> pyval)" where
  "scan_ns_order d [] = Inr (PNone, PNone)"
| "scan_ns_order d (db_ns # rest) =
     (let db_id = dict_get d db_ns in
      if \<not> truthy db_id then scan_ns_order d rest
      else (case extract_id db_id of
              Inl e \<Rightarrow> Inl e
            | Inr i \<Rightarrow> Inr (PStr db_ns, i)))"

definition get_grounding :: "dict concept \<Rightarrow> string list option \<Rightarrow> pyerr + (pyval \<times> pyval)" where
  "get_grounding c ns_order = scan_ns_order (db_refs c) (effective_ns_order ns_order)"

section \<open>\<open>repr\<close> and \<open>str\<close>\<close>

text \<open>
  \<open>repr\<close> of a string: single quotes, unless the string has a single quote and no
  double quote; the backslash and the chosen quote are escaped with a backslash, tab,
  newline and carriage return are written \<open>\t\<close>, \<open>\n\<close>, \<open>\r\<close>, and every other
  character that is not printable as \<open>\xNN\<close> with two lower-case hexadecimal digits.
  Below 256 the characters that are not printable are the codes under 32, those from
  127 to 160, and 173.
\<close>

definition hexdigit :: "nat \<Rightarrow> char" where
  "hexdigit n = (if n < 10 then char_of (48 + n) else char_of (87 + n))"

definition hex2 :: "char \<Rightarrow> string" where
  "hex2 c = [hexdigit ((of_char c :: nat) div 16), hexdigit ((of_char c :: nat) mod 16)]"

definition py_isprintable :: "char \<Rightarrow> bool" where
  "py_isprintable c =
     (let n = (of_char c :: nat) in (32 \<le> n \<and> n < 127) \<or> (160 < n \<and> n \<noteq> 173))"

definition repr_quote :: "string \<Rightarrow> char" where
  "repr_quote s = (if CHR 0x27 \<in> set s \<and> CHR 0x22 \<notin> set s then CHR 0x22 else CHR 0x27)"

definition repr_char :: "char \<Rightarrow> char \<Rightarrow> string" where
  "repr_char quote c =
     (if c = quote \<or> c = CHR 0x5C then [CHR 0x5C, c]
      else if c = CHR 0x09 then [CHR 0x5C, CHR ''t'']
      else if c = CHR 0x0A then [CHR 0x5C, CHR ''n'']
      else if c = CHR 0x0D then [CHR 0x5C, CHR ''r'']
      else if (of_char c :: nat) < 32 \<or> c = CHR 0x7F then CHR 0x5C # CHR ''x'' # hex2 c
      else if (of_char c :: nat) < 127 then [c]
      else if \<not> py_isprintable c then CHR 0x5C # CHR ''x'' # hex2 c
      else [c])"

definition repr_str :: "string \<Rightarrow> string" where
  "repr_str s = (let quote = repr_quote s in quote # concat (map (repr_char quote) s) @ [quote])"

fun join_comma :: "string list \<Rightarrow> string" where
  "join_comma [] = []"
| "join_comma [x] = x"
| "join_comma (x # y # ys) = x @ '', '' @ join_comma (y # ys)"

text \<open>
  \<open>repr\<close> of a value. The text Python prints for a float is not modelled: it is the
  parameter \<open>num_repr\<close>. A tuple of one element is printed with a trailing comma.
\<close>

fun py_repr :: "(rat \<Rightarrow> string) \<Rightarrow> pyval \<Rightarrow> string" where
  "py_repr num_repr PNone = ''None''"
| "py_repr num_repr (PStr s) = repr_str s"
| "py_repr num_repr (PNum x) = num_repr x"
| "py_repr num_repr (PList xs) = ''['' @ join_comma (map (py_repr num_repr) xs) @ '']''"
| "py_repr num_repr (PTuple xs) =
     ''('' @ join_comma (map (py_repr num_repr) xs) @ (if length xs = 1 then '','' else []) @ '')''"

text \<open>The two characters \<open>repr\<close> can choose as the quote.\<close>

definition is_quote :: "char \<Rightarrow> bool" where
  "is_quote q = (q = CHR 0x27 \<or> q = CHR 0x22)"

text \<open>A number printer for the examples below, none of which prints a number.\<close>

definition example_num_repr :: "rat \<Rightarrow> string" where
  "example_num_repr x = ''0''"

section \<open>Identity\<close>

text \<open>
  \<open>entity_matches_key\<close> returns the name of an ungrounded concept and
  \<open>str((db_ns, db_id))\<close> otherwise; both are strings, and \<open>matches_key\<close> applies
  \<open>str\<close> to that string, which returns it as it is.
\<close>

definition entity_matches_key :: "(rat \<Rightarrow> string) \<Rightarrow> dict concept \<Rightarrow> pyerr + string" where
  "entity_matches_key num_repr c =
     (case get_grounding c None of
        Inl e \<Rightarrow> Inl e
      | Inr (db_ns, db_id) \<Rightarrow>
          if \<not> truthy db_ns \<and> \<not> truthy db_id then Inr (name c)
          else Inr (py_repr num_repr (PTuple [db_ns, db_id])))"

definition matches_key :: "(rat \<Rightarrow> string) \<Rightarrow> dict concept \<Rightarrow> pyerr + string" where
  "matches_key num_repr c =
     (case entity_matches_key num_repr c of Inl e \<Rightarrow> Inl e | Inr key \<Rightarrow> Inr key)"

definition matches :: "(rat \<Rightarrow> string) \<Rightarrow> dict concept \<Rightarrow> dict concept \<Rightarrow> pyerr + bool" where
  "matches num_repr a b =
     (case matches_key num_repr a of
        Inl e \<Rightarrow> Inl e
      | Inr ka \<Rightarrow> (case matches_key num_repr b of Inl e \<Rightarrow> Inl e | Inr kb \<Rightarrow> Inr (ka = kb)))"

definition entity_matches :: "(rat \<Rightarrow> string) \<Rightarrow> dict concept \<Rightarrow> dict concept \<Rightarrow> pyerr + bool" where
  "entity_matches num_repr a b =
     (case entity_matches_key num_repr a of
        Inl e \<Rightarrow> Inl e
      | Inr ka \<Rightarrow>
          (case entity_matches_key num_repr b of Inl e \<Rightarrow> Inl e | Inr kb \<Rightarrow> Inr (ka = kb)))"

section \<open>Ontology relations\<close>

text \<open>
  The ontology is a collaborator with a state of its own: each query takes the state
  and returns the answer with the state after the call. A query that is not made
  leaves the state as it was, whatever the ontology is.
\<close>

record 's ontology =
  ont_isa :: "pyval \<Rightarrow> pyval \<Rightarrow> pyval \<Rightarrow> pyval \<Rightarrow> 's \<Rightarrow> bool \<times> 's"
  ont_is_opposite :: "pyval \<Rightarrow> pyval \<Rightarrow> pyval \<Rightarrow> pyval \<Rightarrow> 's \<Rightarrow> bool \<times> 's"

definition isa :: "dict concept \<Rightarrow> dict concept \<Rightarrow> 's ontology \<Rightarrow> 's \<Rightarrow> pyerr + (bool \<times> 's)" where
  "isa a b ontology s =
     (case get_grounding a None of
        Inl e \<Rightarrow> Inl e
      | Inr (self_ns, self_id) \<Rightarrow>
          (case get_grounding b None of
             Inl e \<Rightarrow> Inl e
           | Inr (other_ns, other_id) \<Rightarrow>
               if \<not> list_all truthy [self_ns, self_id, other_ns, other_id] then Inr (False, s)
               else Inr (ont_isa ontology self_ns self_id other_ns other_id s)))"

definition is_opposite :: "dict concept \<Rightarrow> dict concept \<Rightarrow> 's ontology \<Rightarrow> 's \<Rightarrow> pyerr + (bool \<times> 's)" where
  "is_opposite a b ontology s =
     (case get_grounding a None of
        Inl e \<Rightarrow> Inl e
      | Inr (self_ns, self_id) \<Rightarrow>
          (case get_grounding b None of
             Inl e \<Rightarrow> Inl e
           | Inr (other_ns, other_id) \<Rightarrow>
               if \<not> list_all truthy [self_ns, self_id, other_ns, other_id] then Inr (False, s)
               else Inr (ont_is_opposite ontology self_ns self_id other_ns other_id s)))"

definition refinement_of ::
  "(rat \<Rightarrow> string) \<Rightarrow> dict concept \<Rightarrow> dict concept \<Rightarrow> 's ontology \<Rightarrow> bool \<Rightarrow> 's \<Rightarrow> pyerr + (bool \<times> 's)" where
  "refinement_of num_repr a b ontology entities_refined s =
     (if cls a \<noteq> cls b then Inr (False, s)
      else if entities_refined then Inr (True, s)
      else (case entity_matches num_repr a b of
              Inl e \<Rightarrow> Inl e
            | Inr m \<Rightarrow>
                if m then Inr (True, s)
                else (case isa a b ontology s of
                        Inl e \<Rightarrow> Inl e
                      | Inr (r, s') \<Rightarrow> if r then Inr (True, s') else Inr (False, s'))))"

text \<open>A stub that counts its calls and answers from fixed tables.\<close>

definition counting_ontology ::
  "(pyval \<Rightarrow> pyval \<Rightarrow> pyval \<Rightarrow> pyval \<Rightarrow> bool) \<Rightarrow> (pyval \<Rightarrow> pyval \<Rightarrow> pyval \<Rightarrow> pyval \<Rightarrow> bool) \<Rightarrow> nat ontology" where
  "counting_ontology isa_answer opposite_answer =
     \<lparr>ont_isa = (\<lambda>n1 i1 n2 i2 calls. (isa_answer n1 i1 n2 i2, Suc calls)),
      ont_is_opposite = (\<lambda>n1 i1 n2 i2 calls. (opposite_answer n1 i1 n2 i2, Suc calls))\<rparr>"

section \<open>Serialization\<close>

text \<open>
  \<open>to_json\<close> and \<open>_from_json\<close> pass the \<open>db_refs\<close> dict by reference and
  \<open>_from_json\<close> assigns to its keys, so here a concept holds the address of its dict
  and the dicts live in a store. The store also keeps the next free address and the
  messages given to \<open>logger.error\<close>. The values inside a dict are never modified
  in place by the code (a list value is replaced by a new list), so they stay values.
\<close>

type_synonym addr = nat

record store =
  heap :: "addr \<Rightarrow> dict"
  next_addr :: addr
  log :: "string list"

text \<open>A new empty dict, \<open>{}\<close>.\<close>

definition new_dict :: "store \<Rightarrow> addr \<times> store" where
  "new_dict s =
     (next_addr s, s\<lparr>heap := (heap s)(next_addr s := []), next_addr := Suc (next_addr s)\<rparr>)"

text \<open>
  The record \<open>to_json\<close> builds and \<open>_from_json\<close> reads: either key may be missing
  from a record that arrives from outside. A name that is present is a string, as the
  docstring of \<open>Concept\<close> has it, and \<open>db_refs\<close> is a dict.
\<close>

record json_dict =
  j_name :: "string option"
  j_db_refs :: "addr option"

definition to_json :: "addr concept \<Rightarrow> json_dict" where
  "to_json c = \<lparr>j_name = Some (name c), j_db_refs = Some (db_refs c)\<rparr>"

text \<open>\<open>Concept(name, db_refs=db_refs)\<close>: an empty dict is falsy and is replaced by a new one.\<close>

definition Concept_init :: "string \<Rightarrow> addr \<Rightarrow> store \<Rightarrow> addr concept \<times> store" where
  "Concept_init nm refs s =
     (if heap s refs \<noteq> [] then (\<lparr>cls = ''Concept'', name = nm, db_refs = refs\<rparr>, s)
      else (case new_dict s of
              (a, s') \<Rightarrow> (\<lparr>cls = ''Concept'', name = nm, db_refs = a\<rparr>, s')))"

text \<open>
  \<open>tuple(v)\<close>: the elements of a list or tuple, the characters of a string;
  \<open>None\<close> and numbers are not iterable.
\<close>

fun py_tuple :: "pyval \<Rightarrow> pyerr + pyval" where
  "py_tuple (PList xs) = Inr (PTuple xs)"
| "py_tuple (PTuple xs) = Inr (PTuple xs)"
| "py_tuple (PStr s) = Inr (PTuple (map (\<lambda>ch. PStr [ch]) s))"
| "py_tuple PNone = Inl TypeError"
| "py_tuple (PNum x) = Inl TypeError"

text \<open>\<open>[tuple(v) for v in val]\<close>\<close>

fun tuple_each :: "pyval list \<Rightarrow> pyerr + pyval list" where
  "tuple_each [] = Inr []"
| "tuple_each (v # vs) =
     (case py_tuple v of
        Inl e \<Rightarrow> Inl e
      | Inr t \<Rightarrow> (case tuple_each vs of Inl e \<Rightarrow> Inl e | Inr ts \<Rightarrow> Inr (t # ts)))"

text \<open>
  The loop over \<open>db_refs.items()\<close>. Each assignment \<open>db_refs[key] = ...\<close> writes into
  the dict at the address \<open>refs\<close>; an exception leaves the assignments made so far.
\<close>

fun fix_items :: "addr \<Rightarrow> (string \<times> pyval) list \<Rightarrow> store \<Rightarrow> (pyerr + unit) \<times> store" where
  "fix_items refs [] s = (Inr (), s)"
| "fix_items refs ((key, val) # items) s =
     (if is_list val then
        (case tuple_each (seq_items val) of
           Inl e \<Rightarrow> (Inl e, s)
         | Inr ts \<Rightarrow>
             fix_items refs items
               (s\<lparr>heap := (heap s)(refs := AList.update key (PList ts) (heap s refs))\<rparr>))
      else fix_items refs items s)"

text \<open>
  \<open>_from_json\<close>. The result \<open>Inr None\<close> is the return value \<open>None\<close>. A record without
  \<open>db_refs\<close> gets the default \<open>{}\<close>.
\<close>

definition from_json :: "json_dict \<Rightarrow> store \<Rightarrow> (pyerr + addr concept option) \<times> store" where
  "from_json jd s0 =
     (case (case j_db_refs jd of Some a \<Rightarrow> (a, s0) | None \<Rightarrow> new_dict s0) of
        (refs, s) \<Rightarrow>
          (case j_name jd of
             None \<Rightarrow> (Inr None, s\<lparr>log := log s @ [''Concept missing name.'']\<rparr>)
           | Some nm \<Rightarrow>
               if nm = [] then (Inr None, s\<lparr>log := log s @ [''Concept missing name.'']\<rparr>)
               else (case fix_items refs (heap s refs) s of
                       (Inl e, s') \<Rightarrow> (Inl e, s')
                     | (Inr u, s') \<Rightarrow>
                         (case Concept_init nm refs s' of
                            (c, s'') \<Rightarrow> (Inr (Some c), s'')))))"

text \<open>Reading a concept through the store gives the concept with its dict by value.\<close>

definition deref :: "store \<Rightarrow> addr concept \<Rightarrow> dict concept" where
  "deref s c = \<lparr>cls = cls c, name = name c, db_refs = heap s (db_refs c)\<rparr>"

text \<open>
  What the loop of \<open>_from_json\<close> leaves in a dict when it runs to its end, as a
  function on the items: every value that is a list becomes the list of the tuples of
  its elements, every other value stays. It is used to state what the in-place loop
  does.
\<close>

fun tupled_items :: "dict \<Rightarrow> pyerr + dict" where
  "tupled_items [] = Inr []"
| "tupled_items ((key, val) # items) =
     (if is_list val then
        (case tuple_each (seq_items val) of
           Inl e \<Rightarrow> Inl e
         | Inr ts \<Rightarrow>
             (case tupled_items items of
                Inl e \<Rightarrow> Inl e
              | Inr items' \<Rightarrow> Inr ((key, PList ts) # items')))
      else (case tupled_items items of
              Inl e \<Rightarrow> Inl e
            | Inr items' \<Rightarrow> Inr ((key, val) # items')))"

text \<open>
  The shapes of a \<open>db_refs\<close> value named by the round-trip property: a string, or a
  list or tuple of pairs \<open>(identifier, score)\<close>.
\<close>

fun is_tuple :: "pyval \<Rightarrow> bool" where
  "is_tuple (PTuple xs) = True"
| "is_tuple _ = False"

fun is_scored_pair :: "pyval \<Rightarrow> bool" where
  "is_scored_pair (PTuple [PStr i, PNum score]) = True"
| "is_scored_pair _ = False"

fun scalar_or_pairs :: "pyval \<Rightarrow> bool" where
  "scalar_or_pairs (PStr s) = True"
| "scalar_or_pairs (PList xs) = list_all is_scored_pair xs"
| "scalar_or_pairs (PTuple xs) = list_all is_scored_pair xs"
| "scalar_or_pairs _ = False"

text \<open>
  A pair \<open>(identifier, score)\<close> as a Python value, and the same pair next to its sort
  key, the score.
\<close>

definition scored_pair :: "pyval \<times> rat \<Rightarrow> pyval" where
  "scored_pair p = PTuple [fst p, PNum (snd p)]"

definition keyed_pair :: "pyval \<times> rat \<Rightarrow> pyval \<times> pyval" where
  "keyed_pair p = (PNum (snd p), scored_pair p)"

section \<open>Resolution follows the priority order\<close>

lemma scan_ns_order_find:
  "scan_ns_order d order =
     (case find (\<lambda>ns. truthy (dict_get d ns)) order of
        None \<Rightarrow> Inr (PNone, PNone)
      | Some ns \<Rightarrow>
          (case extract_id (dict_get d ns) of
             Inl e \<Rightarrow> Inl e
           | Inr i \<Rightarrow> Inr (PStr ns, i)))"
  by (induction order) (simp_all add: Let_def)

lemma scan_ns_order_skip:
  "\<forall>p \<in> set pre. \<not> truthy (dict_get d p) \<Longrightarrow>
   scan_ns_order d (pre @ rest) = scan_ns_order d rest"
  by (induction pre) (simp_all add: Let_def)

text \<open>
  \<open>get_grounding\<close> goes through the order it is given, or through the default order
  \<open>WM, UN, HUME, SOFIA, CWMS\<close> when it is given none or an empty one, and answers
  from the first namespace whose value in \<open>db_refs\<close> is truthy: the namespace with the
  identifier extracted from that value when the extraction returns one. When no
  namespace of the order has a truthy value the result is \<open>(None, None)\<close>.
\<close>

lemma get_grounding_scans_order:
  "get_grounding c ns_order =
     (case find (\<lambda>ns. truthy (dict_get (db_refs c) ns))
             (case ns_order of
                None \<Rightarrow> [''WM'', ''UN'', ''HUME'', ''SOFIA'', ''CWMS'']
              | Some order \<Rightarrow>
                  if order = [] then [''WM'', ''UN'', ''HUME'', ''SOFIA'', ''CWMS''] else order) of
        None \<Rightarrow> Inr (PNone, PNone)
      | Some ns \<Rightarrow>
          (case extract_id (dict_get (db_refs c) ns) of
             Inl e \<Rightarrow> Inl e
           | Inr i \<Rightarrow> Inr (PStr ns, i)))"
  by (simp add: get_grounding_def scan_ns_order_find effective_ns_order_def default_ns_order_def
      split: option.splits)

text \<open>
  With \<open>db_refs = {"UN": "x", "WM": "y"}\<close>: the default order gives
  \<open>("WM", "y")\<close>, the order \<open>UN, WM\<close> gives \<open>("UN", "x")\<close>, the order \<open>HUME\<close>
  gives \<open>(None, None)\<close>, and the empty order is replaced by the default one.
\<close>

lemma get_grounding_order_examples:
  "get_grounding \<lparr>cls = k, name = n, db_refs = [(''UN'', PStr ''x''), (''WM'', PStr ''y'')]\<rparr> None
     = Inr (PStr ''WM'', PStr ''y'')
   \<and> get_grounding \<lparr>cls = k, name = n, db_refs = [(''UN'', PStr ''x''), (''WM'', PStr ''y'')]\<rparr>
       (Some [''UN'', ''WM'']) = Inr (PStr ''UN'', PStr ''x'')
   \<and> get_grounding \<lparr>cls = k, name = n, db_refs = [(''UN'', PStr ''x''), (''WM'', PStr ''y'')]\<rparr>
       (Some [''HUME'']) = Inr (PNone, PNone)
   \<and> get_grounding \<lparr>cls = k, name = n, db_refs = [(''UN'', PStr ''x''), (''WM'', PStr ''y'')]\<rparr>
       (Some []) = Inr (PStr ''WM'', PStr ''y'')"
  by (simp add: get_grounding_scans_order dict_get_def extract_id_def)

text \<open>
  Claim C2. The claim expects the grounding of the first namespace of the priority
  order that has a non-empty value. With
  \<open>db_refs = {"WM": [("a", 0.3), ("b", 0.9)], "UN": "x"}\<close> and the default order that
  namespace is \<open>WM\<close>; \<open>get_grounding\<close> stops there, as the claim says, but returns
  no grounding: sorting the first pair raises \<open>IndexError\<close>.
\<close>

theorem get_grounding_raises_at_first_namespace:
  "get_grounding \<lparr>cls = ''Concept'', name = ''foo'',
      db_refs = [(''WM'', PList [PTuple [PStr ''a'', PNum (3/10)], PTuple [PStr ''b'', PNum (9/10)]]),
                 (''UN'', PStr ''x'')]\<rparr> None
     = Inl IndexError"
  by (simp add: get_grounding_def effective_ns_order_def default_ns_order_def dict_get_def
      extract_id_def top_scored_def sorted_by_score_def Let_def)

section \<open>A flat list of scored pairs\<close>

text \<open>
  Claim C1. The claim expects the identifier with the highest score when the selected
  value is a flat list of \<open>(identifier, score)\<close> pairs. The code takes \<open>db_id[0]\<close>,
  the first pair, finds that it is a tuple and sorts the pair itself by \<open>x[1]\<close>:
  the key of the identifier string is its second character, and the key of the score
  is the subscription of a number. So whenever the selected value is a list that
  starts with a pair of a string and a number, \<open>get_grounding\<close> raises:
  \<open>IndexError\<close> for an identifier shorter than two characters, \<open>TypeError\<close>
  otherwise. At \<open>{"WM": [("a", 0.3), ("b", 0.9)]}\<close> it raises \<open>IndexError\<close>.
\<close>

theorem get_grounding_flat_pairs_raise:
  assumes "find (\<lambda>ns. truthy (dict_get (db_refs c) ns)) (effective_ns_order ns_order) = Some ns"
    and "dict_get (db_refs c) ns = PList (PTuple [PStr i, PNum score] # rest)"
  shows "get_grounding c ns_order = Inl (if length i < 2 then IndexError else TypeError)"
  using assms
  by (simp add: get_grounding_def scan_ns_order_find extract_id_def top_scored_def
      sorted_by_score_def)

theorem get_grounding_flat_pairs_raise_witness:
  "get_grounding \<lparr>cls = ''Concept'', name = ''foo'',
      db_refs = [(''WM'', PList [PTuple [PStr ''a'', PNum (3/10)], PTuple [PStr ''b'', PNum (9/10)]])]\<rparr>
     None = Inl IndexError"
  using get_grounding_flat_pairs_raise
          [of "\<lparr>cls = ''Concept'', name = ''foo'',
      db_refs = [(''WM'', PList [PTuple [PStr ''a'', PNum (3/10)], PTuple [PStr ''b'', PNum (9/10)]])]\<rparr>"
              None "''WM''" "''a''" "3/10" "[PTuple [PStr ''b'', PNum (9/10)]]"]
  by (simp add: dict_get_def effective_ns_order_def default_ns_order_def)

section \<open>A list of scored pairs as first element\<close>

text \<open>
  The sort does what the claim says when it is given the list of pairs: the pair it
  puts first has a score strictly greater than every pair before it in the input and
  at least the score of every pair after it. \<open>get_grounding\<close> gives the sort that
  list when the list of pairs is itself the first element of the selected value, as in
  \<open>{"WM": [[("a", 0.3), ("b", 0.9), ("c", 0.9)]]}\<close>, which resolves to
  \<open>("WM", "b")\<close>.
\<close>

lemma key_each_pairs: "key_each (map scored_pair ps) = Inr (map keyed_pair ps)"
  by (induction ps) (simp_all add: scored_pair_def keyed_pair_def)

lemma fst_keyed_pair: "fst (keyed_pair p) = PNum (snd p)"
  by (simp add: keyed_pair_def)

lemma snd_keyed_pair: "snd (keyed_pair p) = scored_pair p"
  by (simp add: keyed_pair_def)

lemma insert_desc_pairs:
  "\<exists>r'. insert_desc (keyed_pair p) (map keyed_pair r) = Inr (map keyed_pair r')
        \<and> (case r of
              [] \<Rightarrow> r' = [p]
            | h # t \<Rightarrow> if snd p < snd h then \<exists>t'. r' = h # t' else r' = p # r)"
proof (induction r)
  case Nil
  show ?case by (rule exI [of _ "[p]"]) simp
next
  case (Cons h t)
  then obtain t' where
    t': "insert_desc (keyed_pair p) (map keyed_pair t) = Inr (map keyed_pair t')"
    by blast
  show ?case
  proof (cases "snd p < snd h")
    case True
    with t' show ?thesis
      by (intro exI [of _ "h # t'"]) (simp add: fst_keyed_pair)
  next
    case False
    then show ?thesis
      by (intro exI [of _ "p # h # t"]) (simp add: fst_keyed_pair)
  qed
qed

lemma sort_desc_pairs:
  assumes "ps \<noteq> []"
  shows "\<exists>pre b post r. ps = pre @ b # post
           \<and> (\<forall>q \<in> set pre. snd q < snd b) \<and> (\<forall>q \<in> set post. snd q \<le> snd b)
           \<and> sort_desc (map keyed_pair ps) = Inr (map keyed_pair (b # r))"
  using assms
proof (induction ps)
  case Nil
  then show ?case by simp
next
  case (Cons p ps)
  show ?case
  proof (cases "ps = []")
    case True
    then have "p # ps = [] @ p # [] \<and> (\<forall>q \<in> set []. snd q < snd p)
        \<and> (\<forall>q \<in> set []. snd q \<le> snd p)
        \<and> sort_desc (map keyed_pair (p # ps)) = Inr (map keyed_pair (p # []))"
      by simp
    then show ?thesis by blast
  next
    case False
    from Cons.IH [OF False] obtain pre b post r where
      split: "ps = pre @ b # post"
      and before: "\<forall>q \<in> set pre. snd q < snd b"
      and after: "\<forall>q \<in> set post. snd q \<le> snd b"
      and sorted: "sort_desc (map keyed_pair ps) = Inr (map keyed_pair (b # r))"
      by blast
    from insert_desc_pairs [of p "b # r"] obtain r' where
      ins: "insert_desc (keyed_pair p) (map keyed_pair (b # r)) = Inr (map keyed_pair r')"
      and hd: "if snd p < snd b then \<exists>t'. r' = b # t' else r' = p # b # r"
      by auto
    from sorted ins have run: "sort_desc (map keyed_pair (p # ps)) = Inr (map keyed_pair r')"
      by simp
    show ?thesis
    proof (cases "snd p < snd b")
      case True
      with hd obtain t' where r': "r' = b # t'" by auto
      from split True before after run r'
      have "p # ps = (p # pre) @ b # post \<and> (\<forall>q \<in> set (p # pre). snd q < snd b)
        \<and> (\<forall>q \<in> set post. snd q \<le> snd b)
        \<and> sort_desc (map keyed_pair (p # ps)) = Inr (map keyed_pair (b # t'))"
        by simp
      then show ?thesis by blast
    next
      case False
      with hd have r': "r' = p # b # r" by simp
      have "\<forall>q \<in> set ps. snd q \<le> snd p"
      proof
        fix q assume "q \<in> set ps"
        with split have "q \<in> set pre \<or> q = b \<or> q \<in> set post" by auto
        with before after have "snd q \<le> snd b" by auto
        with False show "snd q \<le> snd p" by simp
      qed
      with run r'
      have "p # ps = [] @ p # ps \<and> (\<forall>q \<in> set []. snd q < snd p)
        \<and> (\<forall>q \<in> set ps. snd q \<le> snd p)
        \<and> sort_desc (map keyed_pair (p # ps)) = Inr (map keyed_pair (p # b # r))"
        by simp
      then show ?thesis by blast
    qed
  qed
qed

lemma top_scored_pairs:
  assumes "ps \<noteq> []"
  shows "\<exists>pre b post. ps = pre @ b # post
           \<and> (\<forall>q \<in> set pre. snd q < snd b) \<and> (\<forall>q \<in> set post. snd q \<le> snd b)
           \<and> top_scored (map scored_pair ps) = Inr (fst b)"
proof -
  from sort_desc_pairs [OF assms] obtain pre b post r where
    split: "ps = pre @ b # post"
    and before: "\<forall>q \<in> set pre. snd q < snd b"
    and after: "\<forall>q \<in> set post. snd q \<le> snd b"
    and sorted: "sort_desc (map keyed_pair ps) = Inr (map keyed_pair (b # r))"
    by blast
  from sorted have "top_scored (map scored_pair ps) = Inr (fst b)"
    by (simp add: top_scored_def sorted_by_score_def key_each_pairs snd_keyed_pair
        scored_pair_def)
  with split before after show ?thesis by blast
qed

lemma get_grounding_nested_pairs:
  assumes "find (\<lambda>ns. truthy (dict_get (db_refs c) ns)) (effective_ns_order ns_order) = Some ns"
    and "dict_get (db_refs c) ns = PList (PList (map scored_pair ps) # others)"
    and "ps \<noteq> []"
  shows "\<exists>pre b post. ps = pre @ b # post
           \<and> (\<forall>q \<in> set pre. snd q < snd b) \<and> (\<forall>q \<in> set post. snd q \<le> snd b)
           \<and> get_grounding c ns_order = Inr (PStr ns, fst b)"
proof -
  from top_scored_pairs [OF assms(3)] obtain pre b post where
    facts: "ps = pre @ b # post" "\<forall>q \<in> set pre. snd q < snd b" "\<forall>q \<in> set post. snd q \<le> snd b"
    and top: "top_scored (map scored_pair ps) = Inr (fst b)"
    by blast
  from assms(1,2) top have "get_grounding c ns_order = Inr (PStr ns, fst b)"
    by (simp add: get_grounding_def scan_ns_order_find extract_id_def)
  with facts show ?thesis by blast
qed

lemma get_grounding_nested_example:
  "get_grounding \<lparr>cls = ''Concept'', name = ''foo'',
      db_refs = [(''WM'', PList [PList [PTuple [PStr ''a'', PNum (3/10)],
                                         PTuple [PStr ''b'', PNum (9/10)],
                                         PTuple [PStr ''c'', PNum (9/10)]]])]\<rparr> None
     = Inr (PStr ''WM'', PStr ''b'')"
  by (simp add: get_grounding_def effective_ns_order_def default_ns_order_def dict_get_def
      extract_id_def top_scored_def sorted_by_score_def Let_def)

section \<open>A falsy identifier is returned\<close>

text \<open>
  Claim C3, as stated, fails: with \<open>db_refs = {"WM": [""], "UN": "x"}\<close> the value of
  \<open>WM\<close> is a non-empty list, the identifier extracted from it is the empty string,
  and \<open>get_grounding\<close> returns \<open>("WM", "")\<close> without going on to \<open>UN\<close>.
\<close>

theorem get_grounding_falsy_id_counterexample:
  "get_grounding \<lparr>cls = ''Concept'', name = ''foo'',
      db_refs = [(''WM'', PList [PStr '''']), (''UN'', PStr ''x'')]\<rparr> None
     = Inr (PStr ''WM'', PStr '''')"
  by (simp add: get_grounding_def effective_ns_order_def default_ns_order_def
      dict_get_def extract_id_def Let_def)

text \<open>
  Claim C3, amended. When the namespaces before \<open>ns\<close> in the priority order have no
  truthy value, the value of \<open>ns\<close> is truthy and the identifier extracted from it is
  falsy, \<open>get_grounding\<close> returns \<open>ns\<close> with that falsy identifier; the namespaces
  after \<open>ns\<close> are not consulted.
\<close>

theorem get_grounding_returns_falsy_id:
  assumes "\<forall>p \<in> set pre. \<not> truthy (dict_get (db_refs c) p)"
    and "truthy (dict_get (db_refs c) ns)"
    and "extract_id (dict_get (db_refs c) ns) = Inr i"
    and "\<not> truthy i"
  shows "get_grounding c (Some (pre @ ns # post)) = Inr (PStr ns, i)"
  using assms
  by (simp add: get_grounding_def effective_ns_order_def scan_ns_order_skip Let_def)

theorem get_grounding_returns_falsy_id_witness:
  "get_grounding \<lparr>cls = ''Concept'', name = ''foo'',
      db_refs = [(''WM'', PList [PNone, PStr ''w'']), (''UN'', PStr ''x'')]\<rparr>
     (Some ([''HUME''] @ ''WM'' # [''UN''])) = Inr (PStr ''WM'', PNone)"
  using get_grounding_returns_falsy_id
     [of "[''HUME'']" "\<lparr>cls = ''Concept'', name = ''foo'',
      db_refs = [(''WM'', PList [PNone, PStr ''w'']), (''UN'', PStr ''x'')]\<rparr>" "''WM''" PNone "[''UN'']"]
  by (simp add: dict_get_def extract_id_def)

section \<open>Ontology relations and refinement\<close>

lemma matches_eq_entity_matches: "matches num_repr a b = entity_matches num_repr a b"
  by (simp add: matches_def entity_matches_def matches_key_def split: sum.splits)

text \<open>
  Let both concepts resolve, to \<open>(self_ns, self_id)\<close> and
  \<open>(other_ns, other_id)\<close>. If one of the four components is falsy (missing),
  \<open>isa\<close> and \<open>is_opposite\<close> return \<open>False\<close> and hand back the ontology's state
  as they received it, for every ontology: no query was made. If all four are truthy
  the result is the ontology's answer to the query on the four components, with the
  state the ontology left.
\<close>

lemma isa_when_groundings_resolve:
  assumes "get_grounding a None = Inr (self_ns, self_id)"
    and "get_grounding b None = Inr (other_ns, other_id)"
  shows "(\<not> (truthy self_ns \<and> truthy self_id \<and> truthy other_ns \<and> truthy other_id) \<longrightarrow>
            isa a b ontology s = Inr (False, s) \<and> is_opposite a b ontology s = Inr (False, s))
       \<and> (truthy self_ns \<and> truthy self_id \<and> truthy other_ns \<and> truthy other_id \<longrightarrow>
            isa a b ontology s = Inr (ont_isa ontology self_ns self_id other_ns other_id s)
          \<and> is_opposite a b ontology s
              = Inr (ont_is_opposite ontology self_ns self_id other_ns other_id s))"
  using assms by (auto simp: isa_def is_opposite_def)

lemma gg_WM_x:
  "get_grounding \<lparr>cls = ''Concept'', name = ''a'', db_refs = [(''WM'', PStr ''x'')]\<rparr> None
     = Inr (PStr ''WM'', PStr ''x'')"
  by (simp add: get_grounding_def effective_ns_order_def default_ns_order_def
      dict_get_def extract_id_def Let_def)

lemma gg_WM_y:
  "get_grounding \<lparr>cls = ''Concept'', name = ''b'', db_refs = [(''WM'', PStr ''y'')]\<rparr> None
     = Inr (PStr ''WM'', PStr ''y'')"
  by (simp add: get_grounding_def effective_ns_order_def default_ns_order_def
      dict_get_def extract_id_def Let_def)

lemma gg_empty:
  "get_grounding \<lparr>cls = ''Concept'', name = ''a'', db_refs = []\<rparr> None = Inr (PNone, PNone)"
  by (simp add: get_grounding_def effective_ns_order_def default_ns_order_def
      dict_get_def Let_def)

lemma isa_counting_examples:
  "isa \<lparr>cls = ''Concept'', name = ''a'', db_refs = []\<rparr>
       \<lparr>cls = ''Concept'', name = ''b'', db_refs = [(''WM'', PStr ''y'')]\<rparr>
       (counting_ontology (\<lambda>n1 i1 n2 i2. True) (\<lambda>n1 i1 n2 i2. True)) 0 = Inr (False, 0)
   \<and> is_opposite \<lparr>cls = ''Concept'', name = ''a'', db_refs = []\<rparr>
       \<lparr>cls = ''Concept'', name = ''b'', db_refs = [(''WM'', PStr ''y'')]\<rparr>
       (counting_ontology (\<lambda>n1 i1 n2 i2. True) (\<lambda>n1 i1 n2 i2. True)) 0 = Inr (False, 0)
   \<and> isa \<lparr>cls = ''Concept'', name = ''b'', db_refs = [(''WM'', PStr ''y'')]\<rparr>
       \<lparr>cls = ''Concept'', name = ''b'', db_refs = [(''WM'', PStr ''y'')]\<rparr>
       (counting_ontology (\<lambda>n1 i1 n2 i2. True) (\<lambda>n1 i1 n2 i2. False)) 0 = Inr (True, 1)
   \<and> is_opposite \<lparr>cls = ''Concept'', name = ''b'', db_refs = [(''WM'', PStr ''y'')]\<rparr>
       \<lparr>cls = ''Concept'', name = ''b'', db_refs = [(''WM'', PStr ''y'')]\<rparr>
       (counting_ontology (\<lambda>n1 i1 n2 i2. True) (\<lambda>n1 i1 n2 i2. False)) 0 = Inr (False, 1)"
  using isa_when_groundings_resolve [OF gg_empty gg_WM_y,
          of "counting_ontology (\<lambda>n1 i1 n2 i2. True) (\<lambda>n1 i1 n2 i2. True)" 0]
        isa_when_groundings_resolve [OF gg_WM_y gg_WM_y,
          of "counting_ontology (\<lambda>n1 i1 n2 i2. True) (\<lambda>n1 i1 n2 i2. False)" 0]
  by (simp add: counting_ontology_def)

text \<open>
  Claim C5. The claim expects \<open>False\<close>, and no call of the ontology, for every pair
  of concepts of which one is ungrounded. Both groundings are resolved before the
  test (lines 63 and 64, 74 and 75), so when the other concept holds the flat scored
  list \<open>{"WM": [("a", 0.3), ("b", 0.9)]}\<close>, on either side, \<open>isa\<close> and
  \<open>is_opposite\<close> raise the \<open>IndexError\<close> of \<open>get_grounding\<close> instead of returning
  \<open>False\<close>.
\<close>

theorem isa_raises_on_flat_scored_list:
  "isa \<lparr>cls = ''Concept'', name = ''a'', db_refs = []\<rparr>
       \<lparr>cls = ''Concept'', name = ''b'',
        db_refs = [(''WM'', PList [PTuple [PStr ''a'', PNum (3/10)], PTuple [PStr ''b'', PNum (9/10)]])]\<rparr>
       (counting_ontology (\<lambda>n1 i1 n2 i2. True) (\<lambda>n1 i1 n2 i2. True)) 0 = Inl IndexError
   \<and> is_opposite \<lparr>cls = ''Concept'', name = ''a'', db_refs = []\<rparr>
       \<lparr>cls = ''Concept'', name = ''b'',
        db_refs = [(''WM'', PList [PTuple [PStr ''a'', PNum (3/10)], PTuple [PStr ''b'', PNum (9/10)]])]\<rparr>
       (counting_ontology (\<lambda>n1 i1 n2 i2. True) (\<lambda>n1 i1 n2 i2. True)) 0 = Inl IndexError
   \<and> isa \<lparr>cls = ''Concept'', name = ''b'',
        db_refs = [(''WM'', PList [PTuple [PStr ''a'', PNum (3/10)], PTuple [PStr ''b'', PNum (9/10)]])]\<rparr>
       \<lparr>cls = ''Concept'', name = ''a'', db_refs = []\<rparr>
       (counting_ontology (\<lambda>n1 i1 n2 i2. True) (\<lambda>n1 i1 n2 i2. True)) 0 = Inl IndexError
   \<and> is_opposite \<lparr>cls = ''Concept'', name = ''b'',
        db_refs = [(''WM'', PList [PTuple [PStr ''a'', PNum (3/10)], PTuple [PStr ''b'', PNum (9/10)]])]\<rparr>
       \<lparr>cls = ''Concept'', name = ''a'', db_refs = []\<rparr>
       (counting_ontology (\<lambda>n1 i1 n2 i2. True) (\<lambda>n1 i1 n2 i2. True)) 0 = Inl IndexError"
  by (simp add: isa_def is_opposite_def get_grounding_def effective_ns_order_def
      default_ns_order_def dict_get_def extract_id_def top_scored_def sorted_by_score_def Let_def)

text \<open>
  Claim C6. \<open>refinement_of\<close> is the cascade: concepts of different classes give
  \<open>False\<close>; otherwise \<open>entities_refined\<close> gives \<open>True\<close>; otherwise concepts that
  match give \<open>True\<close>; otherwise the result is that of \<open>isa\<close>. In the first three
  cases the ontology's state is returned untouched. When a grounding cannot be
  resolved, the exception of the match is the result.
\<close>

theorem refinement_of_cascade:
  "(cls a \<noteq> cls b \<longrightarrow> refinement_of num_repr a b ontology entities_refined s = Inr (False, s))
 \<and> (cls a = cls b \<and> entities_refined \<longrightarrow>
      refinement_of num_repr a b ontology entities_refined s = Inr (True, s))
 \<and> (cls a = cls b \<and> \<not> entities_refined \<and> matches num_repr a b = Inr True \<longrightarrow>
      refinement_of num_repr a b ontology entities_refined s = Inr (True, s))
 \<and> (cls a = cls b \<and> \<not> entities_refined \<and> matches num_repr a b = Inr False \<longrightarrow>
      refinement_of num_repr a b ontology entities_refined s = isa a b ontology s)
 \<and> (cls a = cls b \<and> \<not> entities_refined \<and> matches num_repr a b = Inl e \<longrightarrow>
      refinement_of num_repr a b ontology entities_refined s = Inl e)"
  by (auto simp: refinement_of_def matches_eq_entity_matches split: sum.splits)

lemma matches_same_grounding:
  "matches example_num_repr
     \<lparr>cls = ''Concept'', name = ''a'', db_refs = [(''WM'', PStr ''x'')]\<rparr>
     \<lparr>cls = ''Concept'', name = ''c'', db_refs = [(''WM'', PStr ''x''), (''UN'', PStr ''u'')]\<rparr>
   = Inr True"
  by (simp add: matches_def matches_key_def entity_matches_key_def get_grounding_def
      effective_ns_order_def default_ns_order_def dict_get_def extract_id_def Let_def)

lemma matches_other_grounding:
  "matches example_num_repr
     \<lparr>cls = ''Concept'', name = ''a'', db_refs = [(''WM'', PStr ''x'')]\<rparr>
     \<lparr>cls = ''Concept'', name = ''b'', db_refs = [(''WM'', PStr ''y'')]\<rparr>
   = Inr False"
  by (simp add: matches_def matches_key_def entity_matches_key_def get_grounding_def
      effective_ns_order_def default_ns_order_def dict_get_def extract_id_def Let_def
      repr_str_def repr_quote_def repr_char_def)

lemma isa_x_y:
  "isa \<lparr>cls = ''Concept'', name = ''a'', db_refs = [(''WM'', PStr ''x'')]\<rparr>
       \<lparr>cls = ''Concept'', name = ''b'', db_refs = [(''WM'', PStr ''y'')]\<rparr>
       (counting_ontology (\<lambda>n1 i1 n2 i2. i1 = PStr ''x'' \<and> i2 = PStr ''y'') (\<lambda>n1 i1 n2 i2. False)) 0
   = Inr (True, 1)"
  by (simp add: isa_def gg_WM_x gg_WM_y counting_ontology_def)

theorem refinement_of_cascade_witness:
  "refinement_of example_num_repr
     \<lparr>cls = ''Concept'', name = ''a'', db_refs = [(''WM'', PStr ''x'')]\<rparr>
     \<lparr>cls = ''Agent'', name = ''a'', db_refs = [(''WM'', PStr ''x'')]\<rparr>
     (counting_ontology (\<lambda>n1 i1 n2 i2. True) (\<lambda>n1 i1 n2 i2. False)) False 0 = Inr (False, 0)
   \<and> refinement_of example_num_repr
     \<lparr>cls = ''Concept'', name = ''a'', db_refs = [(''WM'', PStr ''x'')]\<rparr>
     \<lparr>cls = ''Concept'', name = ''b'', db_refs = [(''WM'', PStr ''y'')]\<rparr>
     (counting_ontology (\<lambda>n1 i1 n2 i2. False) (\<lambda>n1 i1 n2 i2. False)) True 0 = Inr (True, 0)
   \<and> refinement_of example_num_repr
     \<lparr>cls = ''Concept'', name = ''a'', db_refs = [(''WM'', PStr ''x'')]\<rparr>
     \<lparr>cls = ''Concept'', name = ''c'', db_refs = [(''WM'', PStr ''x''), (''UN'', PStr ''u'')]\<rparr>
     (counting_ontology (\<lambda>n1 i1 n2 i2. False) (\<lambda>n1 i1 n2 i2. False)) False 0 = Inr (True, 0)
   \<and> refinement_of example_num_repr
     \<lparr>cls = ''Concept'', name = ''a'', db_refs = [(''WM'', PStr ''x'')]\<rparr>
     \<lparr>cls = ''Concept'', name = ''b'', db_refs = [(''WM'', PStr ''y'')]\<rparr>
     (counting_ontology (\<lambda>n1 i1 n2 i2. i1 = PStr ''x'' \<and> i2 = PStr ''y'') (\<lambda>n1 i1 n2 i2. False)) False 0
     = Inr (True, 1)"
  using
    refinement_of_cascade
      [of "\<lparr>cls = ''Concept'', name = ''a'', db_refs = [(''WM'', PStr ''x'')]\<rparr>"
          "\<lparr>cls = ''Agent'', name = ''a'', db_refs = [(''WM'', PStr ''x'')]\<rparr>"
          example_num_repr
          "counting_ontology (\<lambda>n1 i1 n2 i2. True) (\<lambda>n1 i1 n2 i2. False)" False 0]
    refinement_of_cascade
      [of "\<lparr>cls = ''Concept'', name = ''a'', db_refs = [(''WM'', PStr ''x'')]\<rparr>"
          "\<lparr>cls = ''Concept'', name = ''b'', db_refs = [(''WM'', PStr ''y'')]\<rparr>"
          example_num_repr
          "counting_ontology (\<lambda>n1 i1 n2 i2. False) (\<lambda>n1 i1 n2 i2. False)" True 0]
    refinement_of_cascade
      [of "\<lparr>cls = ''Concept'', name = ''a'', db_refs = [(''WM'', PStr ''x'')]\<rparr>"
          "\<lparr>cls = ''Concept'', name = ''c'', db_refs = [(''WM'', PStr ''x''), (''UN'', PStr ''u'')]\<rparr>"
          example_num_repr
          "counting_ontology (\<lambda>n1 i1 n2 i2. False) (\<lambda>n1 i1 n2 i2. False)" False 0]
    refinement_of_cascade
      [of "\<lparr>cls = ''Concept'', name = ''a'', db_refs = [(''WM'', PStr ''x'')]\<rparr>"
          "\<lparr>cls = ''Concept'', name = ''b'', db_refs = [(''WM'', PStr ''y'')]\<rparr>"
          example_num_repr
          "counting_ontology (\<lambda>n1 i1 n2 i2. i1 = PStr ''x'' \<and> i2 = PStr ''y'') (\<lambda>n1 i1 n2 i2. False)"
          False 0]
    matches_same_grounding matches_other_grounding isa_x_y
  by simp

section \<open>\<open>repr\<close> of a string can be read back\<close>

lemma of_char_hexdigit:
  "n < 16 \<Longrightarrow> (of_char (hexdigit n) :: nat) = (if n < 10 then 48 + n else 87 + n)"
  by (simp add: hexdigit_def)

lemma hexdigit_inj: "m < 16 \<Longrightarrow> n < 16 \<Longrightarrow> hexdigit m = hexdigit n \<Longrightarrow> m = n"
proof -
  assume m: "m < 16" and n: "n < 16" and eq: "hexdigit m = hexdigit n"
  from eq have "(of_char (hexdigit m) :: nat) = of_char (hexdigit n)" by simp
  with m n show "m = n" by (simp add: of_char_hexdigit split: if_splits)
qed

lemma hex2_inj: "hex2 c = hex2 d \<Longrightarrow> c = d"
proof -
  assume eq: "hex2 c = hex2 d"
  have c: "(of_char c :: nat) div 16 < 16"
    by (rule less_mult_imp_div_less) simp
  have d: "(of_char d :: nat) div 16 < 16"
    by (rule less_mult_imp_div_less) simp
  from eq have e1: "hexdigit ((of_char c :: nat) div 16) = hexdigit ((of_char d :: nat) div 16)"
    and e2: "hexdigit ((of_char c :: nat) mod 16) = hexdigit ((of_char d :: nat) mod 16)"
    by (simp_all add: hex2_def)
  have "(of_char c :: nat) div 16 = of_char d div 16"
    by (rule hexdigit_inj [OF c d e1])
  moreover have "(of_char c :: nat) mod 16 = of_char d mod 16"
    by (rule hexdigit_inj [OF _ _ e2]) simp_all
  ultimately have "(of_char c :: nat) = of_char d"
    by (metis div_mult_mod_eq)
  then show "c = d" by simp
qed

lemma length_hex2: "length (hex2 c) = 2"
  by (simp add: hex2_def)

lemma hex2_append_inj: "hex2 c @ u = hex2 d @ v \<Longrightarrow> c = d \<and> u = v"
proof -
  assume eq: "hex2 c @ u = hex2 d @ v"
  then have "hex2 c = hex2 d \<and> u = v"
    by (simp add: length_hex2)
  then show ?thesis by (simp add: hex2_inj)
qed

lemma repr_quote_is_quote: "is_quote (repr_quote s)"
  by (simp add: repr_quote_def is_quote_def)

lemma repr_char_cases:
  "(repr_char q x = [CHR 0x5C, x] \<and> (x = q \<or> x = CHR 0x5C))
   \<or> (repr_char q x = [CHR 0x5C, CHR ''t''] \<and> x = CHR 0x09)
   \<or> (repr_char q x = [CHR 0x5C, CHR ''n''] \<and> x = CHR 0x0A)
   \<or> (repr_char q x = [CHR 0x5C, CHR ''r''] \<and> x = CHR 0x0D)
   \<or> (repr_char q x = CHR 0x5C # CHR ''x'' # hex2 x)
   \<or> (repr_char q x = [x] \<and> x \<noteq> q \<and> x \<noteq> CHR 0x5C)"
  by (simp add: repr_char_def)

lemma repr_char_prefix_free:
  assumes q: "is_quote q" and eq: "repr_char q x @ u = repr_char q y @ v"
  shows "x = y \<and> u = v"
  using repr_char_cases [of q x] repr_char_cases [of q y] q eq
  by (elim disjE conjE) (auto simp: is_quote_def dest: hex2_append_inj)

lemma repr_char_starts:
  assumes "is_quote q"
  shows "\<exists>h t. repr_char q x = h # t \<and> h \<noteq> q"
  using repr_char_cases [of q x] assms
  by (elim disjE conjE) (auto simp: is_quote_def)

lemma repr_body_inj:
  assumes "is_quote q"
  shows "concat (map (repr_char q) a) @ q # u = concat (map (repr_char q) c) @ q # v
         \<Longrightarrow> a = c \<and> u = v"
proof (induction a arbitrary: c)
  case Nil
  show ?case
  proof (cases c)
    case Nil
    with Nil.prems show ?thesis by simp
  next
    case (Cons y ys)
    obtain h t where "repr_char q y = h # t" "h \<noteq> q"
      using repr_char_starts [OF assms] by blast
    with Nil.prems Cons show ?thesis by simp
  qed
next
  case (Cons x xs)
  show ?case
  proof (cases c)
    case Nil
    obtain h t where "repr_char q x = h # t" "h \<noteq> q"
      using repr_char_starts [OF assms] by blast
    with Cons.prems Nil show ?thesis by simp
  next
    case (Cons y ys)
    with Cons.prems have
      "repr_char q x @ (concat (map (repr_char q) xs) @ q # u)
         = repr_char q y @ (concat (map (repr_char q) ys) @ q # v)"
      by simp
    from repr_char_prefix_free [OF assms this]
    have "x = y" and "concat (map (repr_char q) xs) @ q # u = concat (map (repr_char q) ys) @ q # v"
      by simp_all
    with Cons.IH [of ys] Cons show ?thesis by simp
  qed
qed

lemma repr_str_inj: "repr_str a @ u = repr_str c @ v \<Longrightarrow> a = c \<and> u = v"
proof -
  assume eq: "repr_str a @ u = repr_str c @ v"
  then have q: "repr_quote a = repr_quote c"
    by (simp add: repr_str_def Let_def)
  from eq have
    "concat (map (repr_char (repr_quote a)) a) @ repr_quote a # u
       = concat (map (repr_char (repr_quote a)) c) @ repr_quote a # v"
    by (simp add: repr_str_def Let_def q)
  from repr_body_inj [OF repr_quote_is_quote this] show ?thesis .
qed

lemma py_repr_pair:
  "py_repr num_repr (PTuple [PStr a, PStr b]) = ''('' @ repr_str a @ '', '' @ repr_str b @ '')''"
  by simp

lemma py_repr_pair_inj:
  "py_repr num_repr (PTuple [PStr a, PStr b]) = py_repr num_repr (PTuple [PStr c, PStr d])
   \<longleftrightarrow> a = c \<and> b = d"
proof
  assume "py_repr num_repr (PTuple [PStr a, PStr b]) = py_repr num_repr (PTuple [PStr c, PStr d])"
  then have "repr_str a @ ('', '' @ repr_str b @ '')'') = repr_str c @ ('', '' @ repr_str d @ '')'')"
    by simp
  from repr_str_inj [OF this]
  have ac: "a = c" and "repr_str b @ '')'' = repr_str d @ '')''" by simp_all
  from repr_str_inj [OF this(2)] ac show "a = c \<and> b = d" by simp
next
  assume "a = c \<and> b = d"
  then show "py_repr num_repr (PTuple [PStr a, PStr b]) = py_repr num_repr (PTuple [PStr c, PStr d])"
    by simp
qed

section \<open>The key of a concept\<close>

lemma scan_ns_order_member:
  "scan_ns_order d order = Inr (PStr ns, i) \<Longrightarrow> ns \<in> set order"
  by (induction order) (auto simp: Let_def split: if_splits sum.splits)

lemma get_grounding_default_ns:
  assumes "get_grounding c None = Inr (PStr ns, i)"
  shows "ns \<noteq> []"
proof -
  from assms have "scan_ns_order (db_refs c) default_ns_order = Inr (PStr ns, i)"
    by (simp add: get_grounding_def effective_ns_order_def)
  then have "ns \<in> set default_ns_order"
    by (rule scan_ns_order_member)
  then show ?thesis
    by (auto simp: default_ns_order_def)
qed

text \<open>
  Claim C4, as stated, fails: the ungrounded concept named \<open>('WM', 'x')\<close> and a
  concept grounded to \<open>WM:x\<close> have the same \<open>matches_key\<close>.
\<close>

theorem matches_key_collision_counterexample:
  "matches_key example_num_repr \<lparr>cls = ''Concept'', name = ''('WM', 'x')'', db_refs = []\<rparr>
     = matches_key example_num_repr
         \<lparr>cls = ''Concept'', name = ''foo'', db_refs = [(''WM'', PStr ''x'')]\<rparr>"
  by (simp add: matches_key_def entity_matches_key_def get_grounding_def
      effective_ns_order_def default_ns_order_def dict_get_def extract_id_def Let_def
      repr_str_def repr_quote_def repr_char_def)

text \<open>
  Claim C4, amended. For two concepts that resolve to pairs of strings, the key is
  \<open>(\<close>, the \<open>repr\<close> of the namespace, a comma and a space, the \<open>repr\<close> of the
  identifier, \<open>)\<close>, and the keys are equal exactly when the pairs are. The key of an
  ungrounded concept is its name as it is, without any mark that tells it from the
  key of a grounded concept.
\<close>

theorem matches_key_injective_on_groundings:
  "(get_grounding a None = Inr (PStr ns_a, PStr id_a) \<and>
    get_grounding b None = Inr (PStr ns_b, PStr id_b) \<longrightarrow>
      matches_key num_repr a = Inr (''('' @ repr_str ns_a @ '', '' @ repr_str id_a @ '')'') \<and>
      (matches_key num_repr a = matches_key num_repr b \<longleftrightarrow> ns_a = ns_b \<and> id_a = id_b))
   \<and> (get_grounding c None = Inr (PNone, PNone) \<longrightarrow> matches_key num_repr c = Inr (name c))"
proof (intro conjI impI)
  assume g: "get_grounding a None = Inr (PStr ns_a, PStr id_a) \<and>
    get_grounding b None = Inr (PStr ns_b, PStr id_b)"
  then have na: "ns_a \<noteq> []" and nb: "ns_b \<noteq> []"
    by (auto dest: get_grounding_default_ns)
  from g na have ka: "matches_key num_repr a = Inr (py_repr num_repr (PTuple [PStr ns_a, PStr id_a]))"
    by (simp add: matches_key_def entity_matches_key_def)
  from g nb have kb: "matches_key num_repr b = Inr (py_repr num_repr (PTuple [PStr ns_b, PStr id_b]))"
    by (simp add: matches_key_def entity_matches_key_def)
  from ka show "matches_key num_repr a = Inr (''('' @ repr_str ns_a @ '', '' @ repr_str id_a @ '')'')"
    by simp
  show "matches_key num_repr a = matches_key num_repr b \<longleftrightarrow> ns_a = ns_b \<and> id_a = id_b"
    unfolding ka kb sum.inject by (rule py_repr_pair_inj)
next
  assume "get_grounding c None = Inr (PNone, PNone)"
  then show "matches_key num_repr c = Inr (name c)"
    by (simp add: matches_key_def entity_matches_key_def)
qed

theorem matches_key_injective_on_groundings_witness:
  "matches_key example_num_repr \<lparr>cls = ''Concept'', name = ''a'', db_refs = [(''WM'', PStr ''x'')]\<rparr>
     = Inr ''('WM', 'x')''
   \<and> matches_key example_num_repr \<lparr>cls = ''Concept'', name = ''a'', db_refs = [(''WM'', PStr ''x'')]\<rparr>
     \<noteq> matches_key example_num_repr \<lparr>cls = ''Concept'', name = ''b'', db_refs = [(''WM'', PStr ''y'')]\<rparr>
   \<and> matches_key example_num_repr \<lparr>cls = ''Concept'', name = ''a'', db_refs = []\<rparr> = Inr ''a''"
proof -
  note inj = matches_key_injective_on_groundings
    [of "\<lparr>cls = ''Concept'', name = ''a'', db_refs = [(''WM'', PStr ''x'')]\<rparr>" "''WM''" "''x''"
        "\<lparr>cls = ''Concept'', name = ''b'', db_refs = [(''WM'', PStr ''y'')]\<rparr>" "''WM''" "''y''"
        example_num_repr
        "\<lparr>cls = ''Concept'', name = ''a'', db_refs = []\<rparr>"]
  from inj gg_WM_x gg_WM_y have
    "matches_key example_num_repr \<lparr>cls = ''Concept'', name = ''a'', db_refs = [(''WM'', PStr ''x'')]\<rparr>
       = Inr (''('' @ repr_str ''WM'' @ '', '' @ repr_str ''x'' @ '')'')"
    by simp
  then have key:
    "matches_key example_num_repr \<lparr>cls = ''Concept'', name = ''a'', db_refs = [(''WM'', PStr ''x'')]\<rparr>
       = Inr ''('WM', 'x')''"
    by (simp add: repr_str_def repr_quote_def repr_char_def Let_def)
  have "''x'' \<noteq> ''y''" by simp
  with inj gg_WM_x gg_WM_y have differ:
    "matches_key example_num_repr \<lparr>cls = ''Concept'', name = ''a'', db_refs = [(''WM'', PStr ''x'')]\<rparr>
     \<noteq> matches_key example_num_repr \<lparr>cls = ''Concept'', name = ''b'', db_refs = [(''WM'', PStr ''y'')]\<rparr>"
    by blast
  from inj gg_empty have fallback:
    "matches_key example_num_repr \<lparr>cls = ''Concept'', name = ''a'', db_refs = []\<rparr> = Inr ''a''"
    by simp
  from key differ fallback show ?thesis by blast
qed

section \<open>Deserialization and the round trip\<close>

lemma update_in_place:
  "k \<notin> fst ` set xs \<Longrightarrow> AList.update k v (xs @ (k, w) # ys) = xs @ (k, v) # ys"
  by (induction xs) auto

lemma store_heap_same: "heap s a = d \<Longrightarrow> s\<lparr>heap := (heap s)(a := d)\<rparr> = s"
proof -
  assume "heap s a = d"
  then have "(heap s)(a := d) = heap s" by (rule fun_upd_idem)
  then show ?thesis by simp
qed

lemma store_upd_upd:
  "(s\<lparr>heap := (heap s)(a := x)\<rparr>)\<lparr>heap := (heap (s\<lparr>heap := (heap s)(a := x)\<rparr>))(a := y)\<rparr>
     = s\<lparr>heap := (heap s)(a := y)\<rparr>"
  by simp

lemma fix_items_tupled:
  assumes "tupled_items items = Inr items'"
    and "heap s refs = pre @ items"
    and "distinct (map fst (pre @ items))"
  shows "fix_items refs items s = (Inr (), s\<lparr>heap := (heap s)(refs := pre @ items')\<rparr>)"
  using assms
proof (induction items arbitrary: items' s pre)
  case Nil
  then have "heap s refs = pre @ items'" by simp
  from store_heap_same [OF this] show ?case by (simp only: fix_items.simps)
next
  case (Cons kv items)
  obtain key val where kv: "kv = (key, val)" by (cases kv)
  show ?case
  proof (cases "is_list val")
    case False
    with Cons.prems(1) kv obtain rest where
      rest: "tupled_items items = Inr rest" and items': "items' = (key, val) # rest"
      by (auto split: sum.splits)
    from Cons.prems kv have "heap s refs = (pre @ [(key, val)]) @ items"
      and "distinct (map fst ((pre @ [(key, val)]) @ items))"
      by simp_all
    from Cons.IH [OF rest this] False kv items' show ?thesis by simp
  next
    case True
    with Cons.prems(1) kv obtain ts rest where
      ts: "tuple_each (seq_items val) = Inr ts" and
      rest: "tupled_items items = Inr rest" and items': "items' = (key, PList ts) # rest"
      by (auto split: sum.splits)
    let ?s = "s\<lparr>heap := (heap s)(refs := AList.update key (PList ts) (heap s refs))\<rparr>"
    from Cons.prems kv have fresh: "key \<notin> fst ` set pre" by auto
    from Cons.prems kv have "heap ?s refs = (pre @ [(key, PList ts)]) @ items"
      by (simp add: update_in_place [OF fresh])
    moreover from Cons.prems kv have "distinct (map fst ((pre @ [(key, PList ts)]) @ items))"
      by simp
    ultimately have "fix_items refs items ?s
        = (Inr (), ?s\<lparr>heap := (heap ?s)(refs := (pre @ [(key, PList ts)]) @ rest)\<rparr>)"
      by (rule Cons.IH [OF rest])
    also have "?s\<lparr>heap := (heap ?s)(refs := (pre @ [(key, PList ts)]) @ rest)\<rparr>
        = s\<lparr>heap := (heap s)(refs := (pre @ [(key, PList ts)]) @ rest)\<rparr>"
      by (rule store_upd_upd)
    also have "(pre @ [(key, PList ts)]) @ rest = pre @ items'"
      using items' by simp
    finally have step: "fix_items refs items ?s = (Inr (), s\<lparr>heap := (heap s)(refs := pre @ items')\<rparr>)" .
    have "fix_items refs (kv # items) s = fix_items refs items ?s"
      using True ts kv by simp
    then show ?thesis using step by (rule trans)
  qed
qed

lemma tuple_each_pairs: "list_all is_scored_pair xs \<Longrightarrow> tuple_each xs = Inr xs"
proof (induction xs)
  case Nil
  then show ?case by simp
next
  case (Cons x xs)
  then have "is_scored_pair x" by simp
  then have "py_tuple x = Inr x" by (cases x rule: is_scored_pair.cases) simp_all
  with Cons show ?case by simp
qed

lemma tupled_items_valid:
  "\<forall>(k, v) \<in> set d. scalar_or_pairs v \<Longrightarrow> tupled_items d = Inr d"
proof (induction d)
  case Nil
  then show ?case by simp
next
  case (Cons kv d)
  obtain k v where kv: "kv = (k, v)" by (cases kv)
  with Cons.prems have "scalar_or_pairs v" by simp
  then have "is_list v \<longrightarrow> tuple_each (seq_items v) = Inr (seq_items v) \<and> v = PList (seq_items v)"
    by (cases v) (simp_all add: tuple_each_pairs)
  with Cons kv show ?case by auto
qed

lemma from_json_to_json:
  assumes nm: "name c \<noteq> []"
    and d: "distinct (map fst (heap s (db_refs c)))"
    and t: "tupled_items (heap s (db_refs c)) = Inr d'"
  shows "from_json (to_json c) s =
           (case Concept_init (name c) (db_refs c) (s\<lparr>heap := (heap s)(db_refs c := d')\<rparr>) of
              (c', s') \<Rightarrow> (Inr (Some c'), s'))"
proof -
  from d have "distinct (map fst ([] @ heap s (db_refs c)))" by simp
  from fix_items_tupled [OF t _ this]
  have "fix_items (db_refs c) (heap s (db_refs c)) s
          = (Inr (), s\<lparr>heap := (heap s)(db_refs c := d')\<rparr>)"
    by simp
  with nm show ?thesis
    by (simp add: from_json_def to_json_def)
qed

lemma py_tuple_is_tuple: "py_tuple x = Inr t \<Longrightarrow> is_tuple t"
  by (cases x) auto

lemma tuple_each_changes:
  "tuple_each xs = Inr ts \<Longrightarrow> \<exists>x \<in> set xs. \<not> is_tuple x \<Longrightarrow> ts \<noteq> xs"
proof (induction xs arbitrary: ts)
  case Nil
  then show ?case by simp
next
  case (Cons x xs)
  from Cons.prems(1) obtain t ts' where t: "py_tuple x = Inr t" and ts': "tuple_each xs = Inr ts'"
    and ts: "ts = t # ts'"
    by (auto split: sum.splits)
  show ?case
  proof (cases "is_tuple x")
    case True
    with Cons.prems(2) have "\<exists>y \<in> set xs. \<not> is_tuple y" by simp
    from Cons.IH [OF ts' this] ts show ?thesis by simp
  next
    case False
    with py_tuple_is_tuple [OF t] have "t \<noteq> x" by auto
    with ts show ?thesis by simp
  qed
qed

lemma tupled_items_changes:
  "tupled_items d = Inr d' \<Longrightarrow>
   \<exists>(k, v) \<in> set d. is_list v \<and> (\<exists>x \<in> set (seq_items v). \<not> is_tuple x) \<Longrightarrow> d' \<noteq> d"
proof (induction d arbitrary: d')
  case Nil
  then show ?case by simp
next
  case (Cons kv d)
  obtain k v where kv: "kv = (k, v)" by (cases kv)
  show ?case
  proof (cases "is_list v \<and> (\<exists>x \<in> set (seq_items v). \<not> is_tuple x)")
    case True
    with Cons.prems(1) kv obtain ts rest where ts: "tuple_each (seq_items v) = Inr ts"
      and d': "d' = (k, PList ts) # rest"
      by (auto split: sum.splits)
    from tuple_each_changes [OF ts] True have "ts \<noteq> seq_items v" by simp
    moreover from True have "v = PList (seq_items v)" by (cases v) simp_all
    ultimately have "PList ts \<noteq> v" by auto
    with d' kv show ?thesis by simp
  next
    case False
    with Cons.prems(2) kv have later:
      "\<exists>(k, v) \<in> set d. is_list v \<and> (\<exists>x \<in> set (seq_items v). \<not> is_tuple x)"
      by auto
    from Cons.prems(1) kv obtain e rest where rest: "tupled_items d = Inr rest" and d': "d' = e # rest"
      by (auto split: sum.splits if_splits)
    from Cons.IH [OF rest later] d' show ?thesis by simp
  qed
qed

text \<open>
  Claim C8. Let \<open>c\<close> be a concept with a non-empty name whose dict has distinct keys
  (as every dict has) and only values that are strings or sequences of
  \<open>(identifier, score)\<close> pairs. Then \<open>_from_json(c.to_json())\<close> returns a concept
  with the name of \<open>c\<close> whose \<open>db_refs\<close> holds what the \<open>db_refs\<close> of \<open>c\<close> held
  before the call; the \<open>db_refs\<close> of \<open>c\<close> itself holds the same after the call.
\<close>

theorem from_json_to_json_round_trip:
  assumes nm: "name c \<noteq> []"
    and dist: "distinct (map fst (heap s (db_refs c)))"
    and shape: "\<forall>(k, v) \<in> set (heap s (db_refs c)). scalar_or_pairs v"
  shows "\<exists>c' s'. from_json (to_json c) s = (Inr (Some c'), s')
           \<and> name c' = name c
           \<and> heap s' (db_refs c') = heap s (db_refs c)
           \<and> heap s' (db_refs c) = heap s (db_refs c)"
proof -
  from shape have t: "tupled_items (heap s (db_refs c)) = Inr (heap s (db_refs c))"
    by (rule tupled_items_valid)
  have same: "s\<lparr>heap := (heap s)(db_refs c := heap s (db_refs c))\<rparr> = s"
    by (rule store_heap_same) simp
  from from_json_to_json [OF nm dist t]
  have run: "from_json (to_json c) s =
           (case Concept_init (name c) (db_refs c) s of (c', s') \<Rightarrow> (Inr (Some c'), s'))"
    unfolding same .
  show ?thesis
  proof (cases "heap s (db_refs c) = []")
    case False
    with run show ?thesis by (simp add: Concept_init_def)
  next
    case True
    with run show ?thesis by (simp add: Concept_init_def new_dict_def)
  qed
qed

theorem from_json_to_json_round_trip_witness:
  "\<exists>c' s'. from_json (to_json \<lparr>cls = ''Concept'', name = ''foo'', db_refs = 0\<rparr>)
              \<lparr>heap = (\<lambda>a. [])(0 := [(''TEXT'', PStr ''rain''),
                  (''WM'', PList [PTuple [PStr ''a'', PNum (3/10)], PTuple [PStr ''b'', PNum (9/10)]])]),
               next_addr = 1, log = []\<rparr>
            = (Inr (Some c'), s')
         \<and> name c' = ''foo''
         \<and> heap s' (db_refs c') = [(''TEXT'', PStr ''rain''),
                  (''WM'', PList [PTuple [PStr ''a'', PNum (3/10)], PTuple [PStr ''b'', PNum (9/10)]])]
         \<and> heap s' 0 = [(''TEXT'', PStr ''rain''),
                  (''WM'', PList [PTuple [PStr ''a'', PNum (3/10)], PTuple [PStr ''b'', PNum (9/10)]])]"
  using from_json_to_json_round_trip
    [of "\<lparr>cls = ''Concept'', name = ''foo'', db_refs = 0\<rparr>"
        "\<lparr>heap = (\<lambda>a. [])(0 := [(''TEXT'', PStr ''rain''),
                  (''WM'', PList [PTuple [PStr ''a'', PNum (3/10)], PTuple [PStr ''b'', PNum (9/10)]])]),
               next_addr = 1, log = []\<rparr>"]
  by simp

text \<open>
  Claim C9. For a record without a name, or with the empty string as name,
  \<open>_from_json\<close> returns \<open>None\<close> and raises nothing; it appends one message to the
  log and leaves every dict that existed before the call as it was (the only address
  that can change is the one of the default \<open>{}\<close>, made when the record has no
  \<open>db_refs\<close>).
\<close>

theorem from_json_missing_name:
  assumes "j_name jd = None \<or> j_name jd = Some []"
  shows "fst (from_json jd s) = Inr None
       \<and> log (snd (from_json jd s)) = log s @ [''Concept missing name.'']
       \<and> (\<forall>a. a \<noteq> next_addr s \<longrightarrow> heap (snd (from_json jd s)) a = heap s a)
       \<and> (j_db_refs jd \<noteq> None \<longrightarrow> heap (snd (from_json jd s)) = heap s)"
  using assms
  by (auto simp: from_json_def new_dict_def split: option.splits prod.splits)

theorem from_json_missing_name_witness:
  "fst (from_json \<lparr>j_name = None, j_db_refs = Some 0\<rparr>
          \<lparr>heap = (\<lambda>a. [])(0 := [(''WM'', PList [PList [PStr ''a'', PNum (3/10)]])]),
           next_addr = 1, log = []\<rparr>) = Inr None
   \<and> log (snd (from_json \<lparr>j_name = None, j_db_refs = Some 0\<rparr>
          \<lparr>heap = (\<lambda>a. [])(0 := [(''WM'', PList [PList [PStr ''a'', PNum (3/10)]])]),
           next_addr = 1, log = []\<rparr>)) = [''Concept missing name.'']
   \<and> heap (snd (from_json \<lparr>j_name = None, j_db_refs = Some 0\<rparr>
          \<lparr>heap = (\<lambda>a. [])(0 := [(''WM'', PList [PList [PStr ''a'', PNum (3/10)]])]),
           next_addr = 1, log = []\<rparr>)) 0 = [(''WM'', PList [PList [PStr ''a'', PNum (3/10)]])]
   \<and> fst (from_json \<lparr>j_name = Some '''', j_db_refs = None\<rparr>
          \<lparr>heap = (\<lambda>a. []), next_addr = 0, log = [''earlier'']\<rparr>) = Inr None
   \<and> log (snd (from_json \<lparr>j_name = Some '''', j_db_refs = None\<rparr>
          \<lparr>heap = (\<lambda>a. []), next_addr = 0, log = [''earlier'']\<rparr>))
       = [''earlier'', ''Concept missing name.'']"
  using from_json_missing_name
    [of "\<lparr>j_name = None, j_db_refs = Some 0\<rparr>"
        "\<lparr>heap = (\<lambda>a. [])(0 := [(''WM'', PList [PList [PStr ''a'', PNum (3/10)]])]),
           next_addr = 1, log = []\<rparr>"]
    from_json_missing_name
    [of "\<lparr>j_name = Some '''', j_db_refs = None\<rparr>"
        "\<lparr>heap = (\<lambda>a. []), next_addr = 0, log = [''earlier'']\<rparr>"]
  by simp

text \<open>
  Claim C7. The claim expects the string elements of a list value to pass through
  \<open>_from_json\<close> unchanged. The code applies \<open>tuple\<close> to every element of every list
  value, and \<open>tuple\<close> of a string is the tuple of its characters: the record with
  \<open>db_refs = {"WM": ["ab", "cd"]}\<close> becomes a concept with
  \<open>db_refs = {"WM": [("a", "b"), ("c", "d")]}\<close>. Before, \<open>get_grounding\<close> resolves
  that \<open>db_refs\<close> to \<open>("WM", "ab")\<close>; after, it raises \<open>IndexError\<close>.
\<close>

theorem from_json_splits_candidate_strings:
  "fst (from_json \<lparr>j_name = Some ''foo'', j_db_refs = Some 0\<rparr>
          \<lparr>heap = (\<lambda>a. [])(0 := [(''WM'', PList [PStr ''ab'', PStr ''cd''])]),
           next_addr = 1, log = []\<rparr>)
     = Inr (Some \<lparr>cls = ''Concept'', name = ''foo'', db_refs = 0\<rparr>)
   \<and> heap (snd (from_json \<lparr>j_name = Some ''foo'', j_db_refs = Some 0\<rparr>
          \<lparr>heap = (\<lambda>a. [])(0 := [(''WM'', PList [PStr ''ab'', PStr ''cd''])]),
           next_addr = 1, log = []\<rparr>)) 0
     = [(''WM'', PList [PTuple [PStr ''a'', PStr ''b''], PTuple [PStr ''c'', PStr ''d'']])]
   \<and> get_grounding
        (deref \<lparr>heap = (\<lambda>a. [])(0 := [(''WM'', PList [PStr ''ab'', PStr ''cd''])]),
                 next_addr = 1, log = []\<rparr>
               \<lparr>cls = ''Concept'', name = ''foo'', db_refs = 0\<rparr>) None
     = Inr (PStr ''WM'', PStr ''ab'')
   \<and> get_grounding
        (deref (snd (from_json \<lparr>j_name = Some ''foo'', j_db_refs = Some 0\<rparr>
                  \<lparr>heap = (\<lambda>a. [])(0 := [(''WM'', PList [PStr ''ab'', PStr ''cd''])]),
                   next_addr = 1, log = []\<rparr>))
               \<lparr>cls = ''Concept'', name = ''foo'', db_refs = 0\<rparr>) None
     = Inl IndexError"
  by (simp add: from_json_def Concept_init_def deref_def get_grounding_def effective_ns_order_def
      default_ns_order_def dict_get_def extract_id_def top_scored_def sorted_by_score_def Let_def)

section \<open>Serialization writes into the concept's own dict\<close>

text \<open>
  Claim C10, as stated, fails: a concept with the empty name and the list-valued entry
  \<open>"WM": [["a", 0.3]]\<close> goes through \<open>_from_json(c.to_json())\<close> with its dict
  untouched, because \<open>_from_json\<close> returns \<open>None\<close> before its loop.
\<close>

theorem round_trip_mutation_counterexample:
  "is_list (PList [PList [PStr ''a'', PNum (3/10)]])
   \<and> fst (from_json (to_json \<lparr>cls = ''Concept'', name = '''', db_refs = 0\<rparr>)
          \<lparr>heap = (\<lambda>a. [])(0 := [(''WM'', PList [PList [PStr ''a'', PNum (3/10)]])]),
           next_addr = 1, log = []\<rparr>) = Inr None
   \<and> heap (snd (from_json (to_json \<lparr>cls = ''Concept'', name = '''', db_refs = 0\<rparr>)
          \<lparr>heap = (\<lambda>a. [])(0 := [(''WM'', PList [PList [PStr ''a'', PNum (3/10)]])]),
           next_addr = 1, log = []\<rparr>)) 0
       = [(''WM'', PList [PList [PStr ''a'', PNum (3/10)]])]"
  by (simp add: from_json_def to_json_def)

text \<open>
  Claim C10, amended. \<open>to_json\<close> puts the address of the concept's own dict into
  the record. For a concept \<open>c\<close> with a non-empty name, distinct keys and list values
  whose elements \<open>tuple\<close> accepts, \<open>_from_json(c.to_json())\<close> returns a concept and
  leaves in the dict of \<open>c\<close> itself the items with every list value replaced by the
  list of the tuples of its elements (\<open>d'\<close>); unless that dict is empty, the returned
  concept shares it. The dict of \<open>c\<close> has changed in value when some list value had
  an element that was not a tuple already.
\<close>

theorem round_trip_rewrites_own_db_refs:
  assumes nm: "name c \<noteq> []"
    and dist: "distinct (map fst (heap s (db_refs c)))"
    and t: "tupled_items (heap s (db_refs c)) = Inr d'"
  shows "j_db_refs (to_json c) = Some (db_refs c)
       \<and> (\<exists>c' s'. from_json (to_json c) s = (Inr (Some c'), s')
             \<and> heap s' (db_refs c) = d'
             \<and> (d' \<noteq> [] \<longrightarrow> db_refs c' = db_refs c))
       \<and> ((\<exists>(k, v) \<in> set (heap s (db_refs c)).
              is_list v \<and> (\<exists>x \<in> set (seq_items v). \<not> is_tuple x))
            \<longrightarrow> d' \<noteq> heap s (db_refs c))"
proof (intro conjI impI)
  show "j_db_refs (to_json c) = Some (db_refs c)"
    by (simp add: to_json_def)
  note run = from_json_to_json [OF nm dist t]
  show "\<exists>c' s'. from_json (to_json c) s = (Inr (Some c'), s')
             \<and> heap s' (db_refs c) = d'
             \<and> (d' \<noteq> [] \<longrightarrow> db_refs c' = db_refs c)"
  proof (cases "d' = []")
    case False
    with run show ?thesis by (simp add: Concept_init_def)
  next
    case True
    with run show ?thesis by (simp add: Concept_init_def new_dict_def)
  qed
  assume "\<exists>(k, v) \<in> set (heap s (db_refs c)).
              is_list v \<and> (\<exists>x \<in> set (seq_items v). \<not> is_tuple x)"
  with t show "d' \<noteq> heap s (db_refs c)" by (rule tupled_items_changes)
qed

theorem round_trip_rewrites_own_db_refs_witness:
  "(\<exists>c' s'. from_json (to_json \<lparr>cls = ''Concept'', name = ''foo'', db_refs = 0\<rparr>)
              \<lparr>heap = (\<lambda>a. [])(0 := [(''TEXT'', PStr ''rain''),
                  (''WM'', PList [PList [PStr ''a'', PNum (3/10)], PList [PStr ''b'', PNum (9/10)]])]),
               next_addr = 1, log = []\<rparr>
            = (Inr (Some c'), s')
         \<and> heap s' 0 = [(''TEXT'', PStr ''rain''),
                  (''WM'', PList [PTuple [PStr ''a'', PNum (3/10)], PTuple [PStr ''b'', PNum (9/10)]])]
         \<and> db_refs c' = 0)
   \<and> [(''TEXT'', PStr ''rain''),
        (''WM'', PList [PTuple [PStr ''a'', PNum (3/10)], PTuple [PStr ''b'', PNum (9/10)]])]
     \<noteq> [(''TEXT'', PStr ''rain''),
        (''WM'', PList [PList [PStr ''a'', PNum (3/10)], PList [PStr ''b'', PNum (9/10)]])]"
  using round_trip_rewrites_own_db_refs
    [of "\<lparr>cls = ''Concept'', name = ''foo'', db_refs = 0\<rparr>"
        "\<lparr>heap = (\<lambda>a. [])(0 := [(''TEXT'', PStr ''rain''),
                  (''WM'', PList [PList [PStr ''a'', PNum (3/10)], PList [PStr ''b'', PNum (9/10)]])]),
               next_addr = 1, log = []\<rparr>"
        "[(''TEXT'', PStr ''rain''),
          (''WM'', PList [PTuple [PStr ''a'', PNum (3/10)], PTuple [PStr ''b'', PNum (9/10)]])]"]
  by simp

end
